theory Spec2Isabelle
  imports Main "HOL-Library.Char_ord" "HOL-Library.List_Lexorder" "HOL-Library.Multiset"
begin

section \<open>Python values\<close>

text \<open>
  The option values and requirement values of \<^verbatim>\<open>skbio/core/workflow.py\<close> are
  Python objects. The embedding keeps the hashable scalars: \<^verbatim>\<open>None\<close>, booleans,
  integers and byte strings (\<^verbatim>\<open>str\<close> of Python 2).
\<close>

datatype pyval = PNone | PBool bool | PInt int | PStr string

text \<open>Python's \<^verbatim>\<open>==\<close> on these values: \<^verbatim>\<open>bool\<close> is a subclass of \<^verbatim>\<open>int\<close>,
  so \<^verbatim>\<open>True == 1\<close> and \<^verbatim>\<open>False == 0\<close>; values of different kinds are unequal.\<close>

fun py_eq :: "pyval \<Rightarrow> pyval \<Rightarrow> bool" where
  "py_eq (PBool a) (PInt i) = (i = (if a then 1 else 0))"
| "py_eq (PInt i) (PBool a) = (i = (if a then 1 else 0))"
| "py_eq x y = (x = y)"

text \<open>The exceptions the module raises itself, or that its own expressions raise.\<close>

datatype error = AttributeError | NotImplementedError | TypeError | KeyError

text \<open>\<^verbatim>\<open>t in s\<close> for two strings: \<^verbatim>\<open>t\<close> occurs in \<^verbatim>\<open>s\<close> as a contiguous piece.\<close>

fun str_contains :: "string \<Rightarrow> string \<Rightarrow> bool" where
  "str_contains [] t = (t = [])"
| "str_contains (c # s) t = (take (length t) (c # s) = t \<or> str_contains s t)"

section \<open>Requirements: \<^verbatim>\<open>Workflow.requires\<close>\<close>

text \<open>
  The \<^verbatim>\<open>values\<close> argument of \<^verbatim>\<open>requires.__init__\<close>: the sentinels
  \<^verbatim>\<open>anything\<close> and \<^verbatim>\<open>not_none\<close>, a Python \<^verbatim>\<open>set\<close>, another iterable
  that is not a string (a list or tuple), or a single scalar value.
\<close>

datatype values_arg =
    ArgAnything
  | ArgNotNone
  | ArgSet "pyval list"
  | ArgIterable "pyval list"
  | ArgValue pyval

text \<open>What \<^verbatim>\<open>requires.__init__\<close> stores in \<^verbatim>\<open>self.values\<close>: one of the two
  sentinels, a set, or (the \<^verbatim>\<open>isinstance(values, str)\<close> branch) the string itself.\<close>

datatype values_spec = Anything | NotNone | ValSet "pyval list" | ValStr string

record 'st requires =
  option :: "string option"
  required_state :: "('st \<Rightarrow> bool) option"
  "values" :: values_spec

definition requires_init ::
  "string option \<Rightarrow> values_arg \<Rightarrow> ('st \<Rightarrow> bool) option \<Rightarrow> 'st requires" where
  "requires_init opt vals st =
     \<lparr> option = opt,
       required_state = st,
       values =
         (case vals of
            ArgAnything \<Rightarrow> Anything
          | ArgNotNone \<Rightarrow> NotNone
          | ArgSet xs \<Rightarrow> ValSet xs
          | ArgValue (PStr s) \<Rightarrow> ValStr s
          | ArgIterable xs \<Rightarrow> ValSet xs
          | ArgValue v \<Rightarrow> ValSet [v]) \<rparr>"

text \<open>
  \<^verbatim>\<open>val in self.values\<close>. \<^verbatim>\<open>Exists.__contains__\<close> answers True,
  \<^verbatim>\<open>NotNone.__contains__\<close> answers whether the item is not \<^verbatim>\<open>None\<close>, a set
  is searched with \<^verbatim>\<open>==\<close>, and a string is searched for a substring, which raises
  TypeError when the left operand is not a string.
\<close>

fun py_contains :: "values_spec \<Rightarrow> pyval \<Rightarrow> error + bool" where
  "py_contains Anything val = Inr True"
| "py_contains NotNone val = Inr (val \<noteq> PNone)"
| "py_contains (ValSet xs) val = Inr (list_ex (py_eq val) xs)"
| "py_contains (ValStr s) (PStr t) = Inr (str_contains s t)"
| "py_contains (ValStr s) val = Inl TypeError"

section \<open>The workflow instance\<close>

text \<open>
  A workflow method is user code. It receives \<^verbatim>\<open>self\<close>; the embedding lets it read
  the options and read and write \<^verbatim>\<open>self.state\<close> and \<^verbatim>\<open>self.failed\<close>.
  Its priority is present when the method is decorated with \<^verbatim>\<open>Workflow.method\<close>, its
  requirement when it is decorated with \<^verbatim>\<open>Workflow.requires\<close>.
\<close>

type_synonym 'st body = "(string \<rightharpoonup> pyval) \<Rightarrow> 'st \<times> bool \<Rightarrow> 'st \<times> bool"

record 'st wf_method =
  name :: string
  priority :: "int option"
  requirement :: "'st requires option"
  body :: "'st body"

type_synonym key = "string \<times> nat"

record 'st trace_record =
  debug_counter :: nat
  debug_trace :: "key set"
  debug_runtime :: "key \<rightharpoonup> int"
  debug_pre_state :: "key \<rightharpoonup> 'st"
  debug_post_state :: "key \<rightharpoonup> 'st"

text \<open>
  What \<^verbatim>\<open>getattr(self, name)\<close> gives for a member of the subclass: the bound method,
  or its \<^verbatim>\<open>_debug_trace_wrapper\<close> once \<^verbatim>\<open>_setup_debug\<close> has replaced it;
  \<^verbatim>\<open>_all_wf_methods\<close> puts \<^verbatim>\<open>self._setup_debug_trace\<close> in front of them.
\<close>

datatype 'st func = Setup_debug_trace | Plain "'st wf_method" | Traced "'st wf_method"

text \<open>
  The instance. \<^verbatim>\<open>extras\<close> holds the attributes attached from \<^verbatim>\<open>**kwargs\<close>;
  \<^verbatim>\<open>trace\<close> is None until \<^verbatim>\<open>_setup_debug_trace\<close> has created the five debug
  attributes; \<^verbatim>\<open>clock\<close> is the sequence of values the coming calls of
  \<^verbatim>\<open>time()\<close> return; \<^verbatim>\<open>initialize_state\<close> is None when the subclass does not
  override it; \<^verbatim>\<open>methods\<close> are the members the subclass defines.
\<close>

record ('i, 'st) workflow =
  options :: "string \<rightharpoonup> pyval"
  short_circuit :: bool
  failed :: bool
  debug :: bool
  state :: 'st
  extras :: "string \<rightharpoonup> pyval"
  trace :: "'st trace_record option"
  clock :: "nat \<Rightarrow> int"
  initialize_state :: "('i \<Rightarrow> 'st body) option"
  methods :: "'st func list"

text \<open>A subclass of \<^verbatim>\<open>Workflow\<close>: its \<^verbatim>\<open>initialize_state\<close>, if it defines one, and
  its other methods in the order the class body declares them.\<close>

record ('i, 'st) wf_class =
  cls_initialize_state :: "('i \<Rightarrow> 'st body) option"
  cls_methods :: "'st wf_method list"

text \<open>A class body binds names in a dictionary: a later definition of a name replaces
  an earlier one.\<close>

fun class_namespace :: "'st wf_method list \<Rightarrow> 'st wf_method list" where
  "class_namespace [] = []"
| "class_namespace (m # ms) =
     (if name m \<in> name ` set ms then class_namespace ms else m # class_namespace ms)"

text \<open>\<^verbatim>\<open>dir(Workflow)\<close>: the names the class defines, and those of \<^verbatim>\<open>object\<close>.\<close>

definition object_attrs :: "string list" where
  "object_attrs =
     [''__class__'', ''__delattr__'', ''__dict__'', ''__doc__'', ''__format__'',
      ''__getattribute__'', ''__hash__'', ''__module__'', ''__new__'', ''__reduce__'',
      ''__reduce_ex__'', ''__repr__'', ''__setattr__'', ''__sizeof__'', ''__str__'',
      ''__subclasshook__'', ''__weakref__'']"

definition workflow_attrs :: "string list" where
  "workflow_attrs =
     [''__call__'', ''__init__'', ''_all_wf_methods'', ''_debug_trace_wrapper'',
      ''_setup_debug'', ''_setup_debug_trace'', ''initialize_state'', ''method'',
      ''requires'']"

definition dir_Workflow :: "string list" where
  "dir_Workflow = workflow_attrs @ object_attrs"

definition init_attrs :: "string list" where
  "init_attrs = [''options'', ''short_circuit'', ''failed'', ''debug'', ''state'']"

definition debug_attrs :: "string list" where
  "debug_attrs =
     [''debug_counter'', ''debug_trace'', ''debug_runtime'', ''debug_pre_state'',
      ''debug_post_state'']"

fun method_of :: "'st func \<Rightarrow> 'st wf_method option" where
  "method_of Setup_debug_trace = None"
| "method_of (Plain m) = Some m"
| "method_of (Traced m) = Some m"

definition func_name :: "'st func \<Rightarrow> string" where
  "func_name f = (case method_of f of None \<Rightarrow> ''_setup_debug_trace'' | Some m \<Rightarrow> name m)"

definition hasattr :: "('i, 'st) workflow \<Rightarrow> string \<Rightarrow> bool" where
  "hasattr w k =
     (k \<in> set init_attrs \<or> k \<in> dom (extras w) \<or> (trace w \<noteq> None \<and> k \<in> set debug_attrs)
      \<or> k \<in> func_name ` set (methods w) \<or> k \<in> set dir_Workflow)"

section \<open>Construction: \<^verbatim>\<open>Workflow.__init__\<close>\<close>

text \<open>The loop over \<^verbatim>\<open>kwargs.iteritems()\<close>; the list gives the pairs in the order
  the dictionary yields them.\<close>

fun set_kwargs ::
  "(string \<times> pyval) list \<Rightarrow> ('i, 'st) workflow \<Rightarrow> error + ('i, 'st) workflow" where
  "set_kwargs [] w = Inr w"
| "set_kwargs ((k, v) # kvs) w =
     (if hasattr w k then Inl AttributeError
      else set_kwargs kvs (w\<lparr>extras := (extras w)(k \<mapsto> v)\<rparr>))"

text \<open>\<^verbatim>\<open>_setup_debug\<close>: every method whose name is not in \<^verbatim>\<open>dir(Workflow)\<close> is
  replaced by its trace wrapper.\<close>

definition setup_debug :: "('i, 'st) workflow \<Rightarrow> ('i, 'st) workflow" where
  "setup_debug w =
     w\<lparr>methods :=
         map (\<lambda>f. case f of
                    Plain m \<Rightarrow> if name m \<in> set dir_Workflow then Plain m else Traced m
                  | _ \<Rightarrow> f)
             (methods w)\<rparr>"

text \<open>The arguments are those of \<^verbatim>\<open>__init__\<close>, in its order, after the class being
  instantiated; the last one is the clock of the environment. \<^verbatim>\<open>init_attributes\<close>
  is the instance after the five assignments that precede the loop over the keyword
  arguments.\<close>

definition init_attributes ::
  "('i, 'st) wf_class \<Rightarrow> 'st \<Rightarrow> bool \<Rightarrow> bool \<Rightarrow> (string \<rightharpoonup> pyval) option \<Rightarrow>
   (nat \<Rightarrow> int) \<Rightarrow> ('i, 'st) workflow" where
  "init_attributes cls st short_circ dbg opts clk =
     \<lparr> options = (case opts of None \<Rightarrow> Map.empty | Some os \<Rightarrow> os),
       short_circuit = short_circ,
       failed = False,
       debug = dbg,
       state = st,
       extras = Map.empty,
       trace = None,
       clock = clk,
       initialize_state = cls_initialize_state cls,
       methods = map Plain (class_namespace (cls_methods cls)) \<rparr>"

definition workflow_init ::
  "('i, 'st) wf_class \<Rightarrow> 'st \<Rightarrow> bool \<Rightarrow> bool \<Rightarrow> (string \<rightharpoonup> pyval) option \<Rightarrow>
   (string \<times> pyval) list \<Rightarrow> (nat \<Rightarrow> int) \<Rightarrow> error + ('i, 'st) workflow" where
  "workflow_init cls st short_circ dbg opts kwargs clk =
     (case set_kwargs kwargs (init_attributes cls st short_circ dbg opts clk) of
        Inl e \<Rightarrow> Inl e
      | Inr w \<Rightarrow> Inr (if debug w then setup_debug w else w))"

section \<open>Ordering the methods: \<^verbatim>\<open>_all_wf_methods\<close>\<close>

text \<open>\<^verbatim>\<open>dir(self)\<close> lists the attribute names in ascending (byte-wise) order.\<close>

definition dir_methods :: "('i, 'st) workflow \<Rightarrow> 'st func list" where
  "dir_methods w = sort_key func_name (methods w)"

definition has_priority :: "'st func \<Rightarrow> bool" where
  "has_priority f = (case method_of f of None \<Rightarrow> False | Some m \<Rightarrow> priority m \<noteq> None)"

text \<open>The sort key \<^verbatim>\<open>getattr(x, 'priority')\<close>; it is only applied to objects that
  have the attribute.\<close>

definition priority_key :: "'st func \<Rightarrow> int" where
  "priority_key f =
     (case method_of f of
        None \<Rightarrow> 0
      | Some m \<Rightarrow> (case priority m of None \<Rightarrow> 0 | Some p \<Rightarrow> p))"

text \<open>\<^verbatim>\<open>sorted(xs, key=key, reverse=True)\<close>: the list is reversed, sorted by the
  stable ascending sort, and reversed again.\<close>

definition sorted_reverse :: "('a \<Rightarrow> int) \<Rightarrow> 'a list \<Rightarrow> 'a list" where
  "sorted_reverse k xs = rev (sort_key k (rev xs))"

definition all_wf_methods :: "('i, 'st) workflow \<Rightarrow> 'st func list" where
  "all_wf_methods w =
     (let ms = filter has_priority (dir_methods w);
          methods_sorted = sorted_reverse priority_key ms
      in if debug w then Setup_debug_trace # methods_sorted else methods_sorted)"

section \<open>Calling a method\<close>

definition setup_debug_trace :: "('i, 'st) workflow \<Rightarrow> ('i, 'st) workflow" where
  "setup_debug_trace w =
     w\<lparr>trace := Some \<lparr> debug_counter = 0, debug_trace = {}, debug_runtime = Map.empty,
                       debug_pre_state = Map.empty, debug_post_state = Map.empty \<rparr>\<rparr>"

text \<open>What a call returns to the trace wrapper: \<^verbatim>\<open>_not_executed\<close>, or anything else.\<close>

datatype outcome = Executed | Not_executed

definition apply_body :: "'st wf_method \<Rightarrow> ('i, 'st) workflow \<Rightarrow> ('i, 'st) workflow" where
  "apply_body m w =
     (case body m (options w) (state w, failed w) of (s, f) \<Rightarrow> w\<lparr>state := s, failed := f\<rparr>)"

text \<open>The function \<^verbatim>\<open>decorated\<close> that \<^verbatim>\<open>requires.__call__\<close> builds around a method.\<close>

definition decorated ::
  "'st requires \<Rightarrow> 'st wf_method \<Rightarrow> ('i, 'st) workflow \<Rightarrow>
   error + (outcome \<times> ('i, 'st) workflow)" where
  "decorated r m w =
     (if (case required_state r of None \<Rightarrow> False | Some p \<Rightarrow> \<not> p (state w))
      then Inr (Not_executed, w)
      else
        (case option r of
           None \<Rightarrow> Inr (Executed, apply_body m w)
         | Some s_opt \<Rightarrow>
             (case options w s_opt of
                Some val \<Rightarrow>
                  if values r = NotNone \<and> val \<noteq> PNone then Inr (Executed, apply_body m w)
                  else
                    (case py_contains (values r) val of
                       Inl e \<Rightarrow> Inl e
                     | Inr True \<Rightarrow> Inr (Executed, apply_body m w)
                     | Inr False \<Rightarrow> Inr (Not_executed, w))
              | None \<Rightarrow> Inr (Not_executed, w))))"

definition call_method ::
  "'st wf_method \<Rightarrow> ('i, 'st) workflow \<Rightarrow> error + (outcome \<times> ('i, 'st) workflow)" where
  "call_method m w =
     (case requirement m of
        None \<Rightarrow> Inr (Executed, apply_body m w)
      | Some r \<Rightarrow> decorated r m w)"

text \<open>\<^verbatim>\<open>time()\<close> takes the next value of the clock.\<close>

definition tick :: "('i, 'st) workflow \<Rightarrow> ('i, 'st) workflow" where
  "tick w = w\<lparr>clock := (\<lambda>n. clock w (Suc n))\<rparr>"

text \<open>The function \<^verbatim>\<open>wrapped\<close> that \<^verbatim>\<open>_debug_trace_wrapper\<close> builds.\<close>

definition debug_trace_wrapper ::
  "'st wf_method \<Rightarrow> ('i, 'st) workflow \<Rightarrow> error + ('i, 'st) workflow" where
  "debug_trace_wrapper m w =
     (case trace w of
        None \<Rightarrow> Inl AttributeError
      | Some t \<Rightarrow>
          (let exec_order = debug_counter t;
               key = (name m, exec_order);
               pre_state = state w;
               w1 = w\<lparr>trace := Some (t\<lparr>debug_trace := insert key (debug_trace t),
                                        debug_counter := debug_counter t + 1\<rparr>)\<rparr>;
               start_time = clock w1 0;
               w2 = tick w1
           in case call_method m w2 of
                Inl e \<Rightarrow> Inl e
              | Inr (Not_executed, w3) \<Rightarrow>
                  (case trace w3 of
                     None \<Rightarrow> Inl AttributeError
                   | Some t3 \<Rightarrow>
                       if key \<in> debug_trace t3
                       then Inr (w3\<lparr>trace := Some (t3\<lparr>debug_trace := debug_trace t3 - {key}\<rparr>)\<rparr>)
                       else Inl KeyError)
              | Inr (Executed, w3) \<Rightarrow>
                  (case trace w3 of
                     None \<Rightarrow> Inl AttributeError
                   | Some t3 \<Rightarrow>
                       (let end_time = clock w3 0;
                            w4 = tick w3
                        in Inr (w4\<lparr>trace := Some (t3\<lparr>
                             debug_runtime := (debug_runtime t3)(key \<mapsto> end_time - start_time),
                             debug_pre_state := (debug_pre_state t3)(key \<mapsto> pre_state),
                             debug_post_state := (debug_post_state t3)(key \<mapsto> state w4)\<rparr>)\<rparr>)))))"

text \<open>\<^verbatim>\<open>func()\<close> in the loop of \<^verbatim>\<open>__call__\<close>; the value returned is dropped.\<close>

fun call_func :: "'st func \<Rightarrow> ('i, 'st) workflow \<Rightarrow> error + ('i, 'st) workflow" where
  "call_func Setup_debug_trace w = Inr (setup_debug_trace w)"
| "call_func (Plain m) w =
     (case call_method m w of Inl e \<Rightarrow> Inl e | Inr (r, w') \<Rightarrow> Inr w')"
| "call_func (Traced m) w = debug_trace_wrapper m w"

section \<open>Running items: \<^verbatim>\<open>Workflow.__call__\<close>\<close>

text \<open>The inner loop \<^verbatim>\<open>for func in workflow\<close>.\<close>

fun run_funcs :: "'st func list \<Rightarrow> ('i, 'st) workflow \<Rightarrow> error + ('i, 'st) workflow" where
  "run_funcs [] w = Inr w"
| "run_funcs (f # fs) w =
     (if short_circuit w \<and> failed w then Inr w
      else case call_func f w of Inl e \<Rightarrow> Inl e | Inr w' \<Rightarrow> run_funcs fs w')"

text \<open>The body of the outer loop up to the \<^verbatim>\<open>yield\<close>.\<close>

definition process_item ::
  "'st func list \<Rightarrow> ('i, 'st) workflow \<Rightarrow> 'i \<Rightarrow> error + ('i, 'st) workflow" where
  "process_item workflow w item =
     (let w1 = w\<lparr>failed := False\<rparr>
      in case initialize_state w1 of
           None \<Rightarrow> Inl NotImplementedError
         | Some init \<Rightarrow>
             (case init item (options w1) (state w1, failed w1) of
                (s, f) \<Rightarrow> run_funcs workflow (w1\<lparr>state := s, failed := f\<rparr>)))"

text \<open>What the item yields: a list with one value, or nothing.\<close>

definition yield_item ::
  "(('i, 'st) workflow \<Rightarrow> 'st) \<Rightarrow> (('i, 'st) workflow \<Rightarrow> 'st) option \<Rightarrow>
   ('i, 'st) workflow \<Rightarrow> 'st list" where
  "yield_item success_callback fail_callback w =
     (if failed w then (case fail_callback of None \<Rightarrow> [] | Some fc \<Rightarrow> [fc w])
      else [success_callback w])"

text \<open>The generator, run to exhaustion: the values yielded, and then either the
  exception that ended it or the instance as the last item left it.\<close>

fun call_loop ::
  "'st func list \<Rightarrow> (('i, 'st) workflow \<Rightarrow> 'st) \<Rightarrow> (('i, 'st) workflow \<Rightarrow> 'st) option \<Rightarrow>
   ('i, 'st) workflow \<Rightarrow> 'i list \<Rightarrow> 'st list \<times> (error + ('i, 'st) workflow)" where
  "call_loop workflow sc fc w [] = ([], Inr w)"
| "call_loop workflow sc fc w (item # items) =
     (case process_item workflow w item of
        Inl e \<Rightarrow> ([], Inl e)
      | Inr w' \<Rightarrow>
          (case call_loop workflow sc fc w' items of
             (outs, r) \<Rightarrow> (yield_item sc fc w' @ outs, r)))"

definition call ::
  "('i, 'st) workflow \<Rightarrow> 'i list \<Rightarrow> (('i, 'st) workflow \<Rightarrow> 'st) option \<Rightarrow>
   (('i, 'st) workflow \<Rightarrow> 'st) option \<Rightarrow> 'st list \<times> (error + ('i, 'st) workflow)" where
  "call w iter success_callback fail_callback =
     (let sc = (case success_callback of None \<Rightarrow> state | Some f \<Rightarrow> f);
          workflow = all_wf_methods w
      in call_loop workflow sc fail_callback w iter)"

section \<open>Reading a run\<close>

text \<open>The instances at the successive \<^verbatim>\<open>yield\<close> points of the outer loop, one for
  each item that was processed before an exception, if any, ended the run.\<close>

fun finals :: "'st func list \<Rightarrow> ('i, 'st) workflow \<Rightarrow> 'i list \<Rightarrow> ('i, 'st) workflow list" where
  "finals workflow w [] = []"
| "finals workflow w (item # items) =
     (case process_item workflow w item of
        Inl e \<Rightarrow> []
      | Inr w' \<Rightarrow> w' # finals workflow w' items)"

text \<open>The keys of the debug trace of an instance.\<close>

definition recorded_keys :: "('i, 'st) workflow \<Rightarrow> key set" where
  "recorded_keys w = (case trace w of None \<Rightarrow> {} | Some t \<Rightarrow> debug_trace t)"

text \<open>The keys that the methods \<^verbatim>\<open>ms\<close> get when they are called one after the other
  and the counter stands at \<^verbatim>\<open>c\<close> before the first call: the method at position
  \<^verbatim>\<open>j\<close> gets the order value \<^verbatim>\<open>c + j\<close>.\<close>

definition trace_slots :: "nat \<Rightarrow> 'st wf_method list \<Rightarrow> key set" where
  "trace_slots c ms = set (map (\<lambda>(i, m). (name m, i)) (enumerate c ms))"


section \<open>The example of the module's documentation\<close>

definition nuc_pattern :: string where
  "nuc_pattern = ''AATTG''"

definition has_nuc_pattern :: "string \<Rightarrow> bool" where
  "has_nuc_pattern s = (take (length nuc_pattern) s = nuc_pattern)"

definition check_length :: "string wf_method" where
  "check_length =
     \<lparr> name = ''check_length'', priority = Some 100, requirement = None,
       body = (\<lambda>opts (s, f). (s, if length s < 10 then True else f)) \<rparr>"

definition truncate :: "string wf_method" where
  "truncate =
     \<lparr> name = ''truncate'', priority = Some 90,
       requirement = Some (requires_init None ArgAnything (Some has_nuc_pattern)),
       body = (\<lambda>opts (s, f). (drop (length nuc_pattern) s, f)) \<rparr>"

definition reverse :: "string wf_method" where
  "reverse =
     \<lparr> name = ''reverse'', priority = Some 80,
       requirement = Some (requires_init (Some ''reverse'') (ArgValue (PBool True)) None),
       body = (\<lambda>opts (s, f). (rev s, f)) \<rparr>"

definition SequenceProcessor :: "(string, string) wf_class" where
  "SequenceProcessor =
     \<lparr> cls_initialize_state = Some (\<lambda>item opts (s, f). (item, f)),
       cls_methods = [check_length, truncate, reverse] \<rparr>"

definition seqs :: "string list" where
  "seqs = [''AAAAAAATTTTTTT'', ''ATAGACC'', ''AATTGCCGGAC'', ''ATATGAACAAA'']"

text \<open>The class \<^verbatim>\<open>Ex\<close> of the documentation: three methods of the default priority 0
  whose bodies are \<^verbatim>\<open>pass\<close>, declared in this order.\<close>

definition do_something :: "string wf_method" where
  "do_something =
     \<lparr> name = ''do_something'', priority = Some 0,
       requirement = Some (requires_init (Some ''foo'') ArgNotNone None),
       body = (\<lambda>opts (s, f). (s, f)) \<rparr>"

definition do_something_else :: "string wf_method" where
  "do_something_else =
     \<lparr> name = ''do_something_else'', priority = Some 0,
       requirement = Some (requires_init (Some ''bar'') ArgAnything None),
       body = (\<lambda>opts (s, f). (s, f)) \<rparr>"

definition do_something_awesome :: "string wf_method" where
  "do_something_awesome =
     \<lparr> name = ''do_something_awesome'', priority = Some 0,
       requirement =
         Some (requires_init (Some ''foobar'') (ArgIterable [PInt 1, PInt 2, PInt 3]) None),
       body = (\<lambda>opts (s, f). (s, f)) \<rparr>"

definition Ex :: "(string, string) wf_class" where
  "Ex =
     \<lparr> cls_initialize_state = None,
       cls_methods = [do_something, do_something_else, do_something_awesome] \<rparr>"

text \<open>\<^verbatim>\<open>Ex\<close> with an \<^verbatim>\<open>initialize_state\<close> that stores the item, so that it can run.\<close>

definition Ex_runnable :: "(string, string) wf_class" where
  "Ex_runnable = Ex\<lparr>cls_initialize_state := Some (\<lambda>item opts (s, f). (item, f))\<rparr>"

text \<open>The callbacks of the documentation.\<close>

definition success_f :: "(string, string) workflow \<Rightarrow> string" where
  "success_f obj = ''SUCCESS: '' @ state obj"

definition fail_f :: "(string, string) workflow \<Rightarrow> string" where
  "fail_f obj = ''FAIL: '' @ state obj"

text \<open>A class with one method that requires the option \<^verbatim>\<open>mode\<close> to have the
  value \<^verbatim>\<open>'loud'\<close>, given as a single string.\<close>

definition shout :: "string wf_method" where
  "shout =
     \<lparr> name = ''shout'', priority = Some 0,
       requirement = Some (requires_init (Some ''mode'') (ArgValue (PStr ''loud'')) None),
       body = (\<lambda>opts (s, f). (s @ ''!'', f)) \<rparr>"

definition Shouter :: "(string, string) wf_class" where
  "Shouter =
     \<lparr> cls_initialize_state = Some (\<lambda>item opts (s, f). (item, f)),
       cls_methods = [shout] \<rparr>"

text \<open>Instances: the two \<^verbatim>\<open>SequenceProcessor\<close> instances of the documentation (the
  first with its option key spelled \<^verbatim>\<open>reverse\<close>), an instance of \<^verbatim>\<open>Ex\<close> in debug
  mode and one of \<^verbatim>\<open>Shouter\<close>. The initial state stands for \<^verbatim>\<open>None\<close>; the clock
  counts seconds.\<close>

definition seq_wf :: "(string, string) workflow" where
  "seq_wf = projr (workflow_init SequenceProcessor [] True False
                     (Some [''reverse'' \<mapsto> PBool False]) [] int)"

definition seq_wf_debug :: "(string, string) workflow" where
  "seq_wf_debug = projr (workflow_init SequenceProcessor [] True True
                     (Some [''reverse'' \<mapsto> PBool True]) [] int)"

definition ex_wf_debug :: "(string, string) workflow" where
  "ex_wf_debug = projr (workflow_init Ex_runnable [] True True
                     (Some [''foobar'' \<mapsto> PInt 2]) [] int)"

definition shouter_wf :: "(string, string) workflow" where
  "shouter_wf = projr (workflow_init Shouter [] True False
                     (Some [''mode'' \<mapsto> PStr ''ou'']) [] int)"

text \<open>The debug instances at the moment the first method of an item is called: the
  state is initialised and the trace is reset.\<close>

definition seq_item_start :: "string \<Rightarrow> (string, string) workflow" where
  "seq_item_start item = setup_debug_trace (projr (process_item [] seq_wf_debug item))"

definition ex_item_start :: "string \<Rightarrow> (string, string) workflow" where
  "ex_item_start item = setup_debug_trace (projr (process_item [] ex_wf_debug item))"

section \<open>Unfolding the definitions on concrete inputs\<close>

lemmas example_defs =
  SequenceProcessor_def check_length_def truncate_def reverse_def seqs_def
  has_nuc_pattern_def nuc_pattern_def Ex_def Ex_runnable_def do_something_def
  do_something_else_def do_something_awesome_def success_f_def fail_f_def
  shout_def Shouter_def seq_wf_def seq_wf_debug_def ex_wf_debug_def shouter_wf_def
  seq_item_start_def ex_item_start_def recorded_keys_def

lemmas init_defs =
  workflow_init_def init_attributes_def hasattr_def setup_debug_def dir_Workflow_def
  workflow_attrs_def object_attrs_def init_attrs_def debug_attrs_def

lemmas order_defs =
  all_wf_methods_def dir_methods_def has_priority_def func_name_def sorted_reverse_def
  priority_key_def

lemmas run_defs =
  call_def process_item_def requires_init_def yield_item_def call_method_def decorated_def
  apply_body_def debug_trace_wrapper_def setup_debug_trace_def tick_def

lemmas eval_defs = example_defs init_defs order_defs run_defs Let_def

section \<open>The documented scenario\<close>

text \<open>
  C1. The \<^verbatim>\<open>SequenceProcessor\<close> of the documentation, built with the options
  \<^verbatim>\<open>{'reverse': False}\<close>, run over the four sequences. With the documented callbacks
  the results are, in order, a success with the first sequence unchanged, a failure for
  \<^verbatim>\<open>ATAGACC\<close>, a success with \<^verbatim>\<open>CCGGAC\<close> and a success with the fourth sequence
  unchanged; with the default callbacks the three successes are yielded as they are.
\<close>

theorem sequence_processor_scenario:
  "case workflow_init SequenceProcessor st True False (Some [''reverse'' \<mapsto> PBool False]) [] clk of
     Inl e \<Rightarrow> False
   | Inr w \<Rightarrow>
       fst (call w seqs (Some success_f) (Some fail_f)) =
         [''SUCCESS: AAAAAAATTTTTTT'', ''FAIL: ATAGACC'', ''SUCCESS: CCGGAC'',
          ''SUCCESS: ATATGAACAAA'']
       \<and> fst (call w seqs None None) = [''AAAAAAATTTTTTT'', ''CCGGAC'', ''ATATGAACAAA'']"
  by (simp add: eval_defs)

section \<open>The order of the methods\<close>

lemma insort_key_lex:
  assumes "sorted (map k ys)"
    and "sorted_wrt (\<lambda>a b. k a < k b \<or> (k a = k b \<and> S a b)) ys"
    and "\<forall>y\<in>set ys. S x y"
  shows "sorted_wrt (\<lambda>a b. k a < k b \<or> (k a = k b \<and> S a b)) (insort_key k x ys)"
  using assms
proof (induction ys)
  case Nil
  then show ?case by simp
next
  case (Cons y ys)
  show ?case
  proof (cases "k x \<le> k y")
    case True
    have "\<forall>z\<in>set (y # ys). k x \<le> k z"
      using True Cons.prems(1) by auto
    then have "\<forall>z\<in>set (y # ys). k x < k z \<or> (k x = k z \<and> S x z)"
      using Cons.prems(3) by (meson order_le_less)
    then show ?thesis using True Cons.prems(2) by simp
  next
    case False
    have ih: "sorted_wrt (\<lambda>a b. k a < k b \<or> (k a = k b \<and> S a b)) (insort_key k x ys)"
      using Cons by simp
    have "\<forall>z\<in>set (insort_key k x ys). k y < k z \<or> (k y = k z \<and> S y z)"
      using False Cons.prems(2) by (auto simp: set_insort_key)
    then show ?thesis using False ih by simp
  qed
qed

lemma sort_key_lex:
  fixes k :: "'a \<Rightarrow> int"
  assumes "sorted_wrt S xs"
  shows "sorted_wrt (\<lambda>a b. k a < k b \<or> (k a = k b \<and> S a b)) (sort_key k xs)"
  using assms
proof (induction xs)
  case Nil
  then show ?case by simp
next
  case (Cons x xs)
  then show ?case
    by (simp add: insort_key_lex)
qed

lemma sorted_reverse_lex:
  assumes "sorted_wrt S xs"
  shows "sorted_wrt (\<lambda>a b. k b < k a \<or> (k a = k b \<and> S a b)) (sorted_reverse k xs)"
proof -
  have "sorted_wrt (\<lambda>a b. S b a) (rev xs)"
    using assms by (simp add: sorted_wrt_rev)
  then have "sorted_wrt (\<lambda>a b. k a < k b \<or> (k a = k b \<and> S b a)) (sort_key k (rev xs))"
    by (rule sort_key_lex)
  then have "sorted_wrt (\<lambda>a b. k b < k a \<or> (k b = k a \<and> S a b)) (rev (sort_key k (rev xs)))"
    by (simp add: sorted_wrt_rev)
  then show ?thesis
    unfolding sorted_reverse_def by (rule sorted_wrt_mono_rel[rotated]) auto
qed

lemma dir_methods_sorted: "sorted_wrt (\<lambda>f g. func_name f \<le> func_name g) (dir_methods w)"
  unfolding dir_methods_def using sorted_sort_key[of func_name "methods w"]
  by (simp add: sorted_map)

lemma mset_sorted_reverse: "mset (sorted_reverse k xs) = mset xs"
  by (simp add: sorted_reverse_def)

text \<open>
  C3, as the specification states it, fails: the three methods of \<^verbatim>\<open>Ex\<close> have the
  same priority and are declared in the order \<^verbatim>\<open>do_something\<close>,
  \<^verbatim>\<open>do_something_else\<close>, \<^verbatim>\<open>do_something_awesome\<close>, and they run in another order.
\<close>

theorem equal_priority_order_counterexample:
  "workflow_init Ex [] True False None [] int = Inr (projr (workflow_init Ex [] True False None [] int))
   \<and> map priority (cls_methods Ex) = [Some 0, Some 0, Some 0]
   \<and> map name (cls_methods Ex) = [''do_something'', ''do_something_else'', ''do_something_awesome'']
   \<and> map func_name (all_wf_methods (projr (workflow_init Ex [] True False None [] int)))
       = [''do_something'', ''do_something_awesome'', ''do_something_else'']"
  by (simp add: example_defs init_defs order_defs)

text \<open>
  C3, amended. The list that \<^verbatim>\<open>_all_wf_methods\<close> returns holds, after the trace reset
  that debug mode puts in front, exactly the members that carry a priority; a method
  of higher priority comes before every method of lower priority, and methods of equal
  priority come in ascending order of their names, which is the order of \<^verbatim>\<open>dir\<close>.
  The list is a function of the instance, so every run sees the same order.
\<close>

theorem step_order:
  "\<exists>ms. all_wf_methods w = (if debug w then Setup_debug_trace # ms else ms)
     \<and> mset ms = mset (filter has_priority (methods w))
     \<and> sorted_wrt (\<lambda>f g. priority_key g < priority_key f
           \<or> (priority_key f = priority_key g \<and> func_name f \<le> func_name g)) ms"
proof -
  let ?xs = "filter has_priority (dir_methods w)"
  let ?ms = "sorted_reverse priority_key ?xs"
  have a: "all_wf_methods w = (if debug w then Setup_debug_trace # ?ms else ?ms)"
    by (simp add: all_wf_methods_def)
  have b: "mset ?ms = mset (filter has_priority (methods w))"
    by (simp add: mset_sorted_reverse dir_methods_def)
  have "sorted_wrt (\<lambda>f g. func_name f \<le> func_name g) ?xs"
    using dir_methods_sorted by (rule sorted_wrt_filter)
  then have c: "sorted_wrt (\<lambda>f g. priority_key g < priority_key f
           \<or> (priority_key f = priority_key g \<and> func_name f \<le> func_name g)) ?ms"
    by (rule sorted_reverse_lex)
  from a b c show ?thesis by blast
qed

section \<open>Method calls and the trace wrapper\<close>

text \<open>A call of a method, with its requirement, either applies the body or leaves the
  instance as it is; it does not depend on the trace record or on the clock.\<close>

lemma call_method_result:
  "call_method m w = Inr (r, w') \<Longrightarrow> w' = (if r = Executed then apply_body m w else w)"
  by (auto simp: call_method_def decorated_def split: option.splits if_splits sum.splits bool.splits)

lemma apply_body_trace_clock:
  "apply_body m (w\<lparr>trace := tr, clock := c\<rparr>) = (apply_body m w)\<lparr>trace := tr, clock := c\<rparr>"
  by (simp add: apply_body_def split: prod.splits)

lemma call_method_trace_clock:
  "call_method m (w\<lparr>trace := tr, clock := c\<rparr>) =
     map_sum id (map_prod id (\<lambda>x. x\<lparr>trace := tr, clock := c\<rparr>)) (call_method m w)"
  by (simp add: call_method_def decorated_def apply_body_trace_clock
      split: option.splits sum.splits bool.splits)

lemma apply_body_fields [simp]:
  "trace (apply_body m w) = trace w" "clock (apply_body m w) = clock w"
  "short_circuit (apply_body m w) = short_circuit w" "options (apply_body m w) = options w"
  "debug (apply_body m w) = debug w" "methods (apply_body m w) = methods w"
  "state (apply_body m w) = fst (body m (options w) (state w, failed w))"
  "failed (apply_body m w) = snd (body m (options w) (state w, failed w))"
  by (simp_all add: apply_body_def split: prod.splits)

text \<open>What the wrapper returns, by the outcome of the call it wraps.\<close>

lemma wrapper_not_executed:
  assumes "trace w = Some t" "call_method m w = Inr (Not_executed, w')"
  shows "debug_trace_wrapper m w =
     Inr ((tick w)\<lparr>trace := Some (t\<lparr>debug_trace := debug_trace t - {(name m, debug_counter t)},
                                    debug_counter := debug_counter t + 1\<rparr>)\<rparr>)"
proof -
  have w': "w' = w" using call_method_result[OF assms(2)] by simp
  show ?thesis
    using assms unfolding w'
    by (simp add: debug_trace_wrapper_def tick_def call_method_trace_clock Let_def)
qed

lemma wrapper_executed:
  assumes "trace w = Some t" "call_method m w = Inr (Executed, w')"
  shows "debug_trace_wrapper m w =
     Inr ((tick (tick w'))\<lparr>trace := Some (t\<lparr>
            debug_trace := insert (name m, debug_counter t) (debug_trace t),
            debug_counter := debug_counter t + 1,
            debug_runtime := (debug_runtime t)((name m, debug_counter t) \<mapsto> clock w 1 - clock w 0),
            debug_pre_state := (debug_pre_state t)((name m, debug_counter t) \<mapsto> state w),
            debug_post_state := (debug_post_state t)((name m, debug_counter t) \<mapsto> state w')\<rparr>)\<rparr>)"
proof -
  have w': "w' = apply_body m w" using call_method_result[OF assms(2)] by simp
  show ?thesis
    using assms unfolding w'
    by (simp add: debug_trace_wrapper_def tick_def call_method_trace_clock Let_def)
qed



section \<open>The loop over the methods\<close>



lemma tick_fields [simp]:
  "trace (tick w) = trace w" "short_circuit (tick w) = short_circuit w"
  "failed (tick w) = failed w" "state (tick w) = state w" "options (tick w) = options w"
  by (simp_all add: tick_def)














section \<open>The order values of the trace keys\<close>


lemma trace_slots_Nil: "trace_slots c [] = {}"
  by (simp add: trace_slots_def)


lemma trace_slots_nth:
  "k \<in> trace_slots c ms \<longleftrightarrow> (\<exists>j<length ms. k = (name (ms ! j), c + j))"
proof
  assume "k \<in> trace_slots c ms"
  then have "c \<le> snd k" "snd k - c < length ms" "fst k = name (ms ! (snd k - c))"
    by (auto simp: trace_slots_def in_set_enumerate_eq)
  then have "snd k - c < length ms \<and> k = (name (ms ! (snd k - c)), c + (snd k - c))"
    by (cases k) simp
  then show "\<exists>j<length ms. k = (name (ms ! j), c + j)" by blast
next
  assume "\<exists>j<length ms. k = (name (ms ! j), c + j)"
  then show "k \<in> trace_slots c ms"
    by (auto simp: trace_slots_def in_set_enumerate_eq)
qed


section \<open>Short circuit\<close>



section \<open>The debug trace\<close>






text \<open>
  C9. A wrapped method called on an instance that has a trace record: when the method,
  with its requirement, returns, the wrapper returns too, and the failure flag and the
  state are those the call of the method left. A skipped method leaves both as they
  were before the call; an executed one leaves the flag its body computed.
\<close>

theorem tracer_preserves_failed:
  assumes "trace w = Some t" and "call_method m w = Inr (r, w0)"
  shows "\<exists>w'. debug_trace_wrapper m w = Inr w' \<and> failed w' = failed w0 \<and> state w' = state w0
     \<and> (r = Not_executed \<longrightarrow> failed w' = failed w \<and> state w' = state w)
     \<and> (r = Executed \<longrightarrow> failed w' = snd (body m (options w) (state w, failed w)))"
proof (cases r)
  case Executed
  have "w0 = apply_body m w" using call_method_result[OF assms(2)] Executed by simp
  then show ?thesis
    using wrapper_executed[OF assms(1), of m w0] assms(2) Executed by simp
next
  case Not_executed
  have "w0 = w" using call_method_result[OF assms(2)] Not_executed by simp
  then show ?thesis
    using wrapper_not_executed[OF assms(1), of m w0] assms(2) Not_executed by simp
qed

text \<open>Witness of C9: \<^verbatim>\<open>check_length\<close> on \<^verbatim>\<open>ATAGACC\<close> sets the flag, and the flag
  is set after the wrapper.\<close>

theorem tracer_preserves_failed_witness:
  "trace (seq_item_start ''ATAGACC'')
     = Some \<lparr> debug_counter = 0, debug_trace = {}, debug_runtime = Map.empty,
              debug_pre_state = Map.empty, debug_post_state = Map.empty \<rparr>
   \<and> call_method check_length (seq_item_start ''ATAGACC'')
       = Inr (Executed, apply_body check_length (seq_item_start ''ATAGACC''))
   \<and> \<not> failed (seq_item_start ''ATAGACC'')
   \<and> failed (apply_body check_length (seq_item_start ''ATAGACC''))
   \<and> (\<exists>w'. debug_trace_wrapper check_length (seq_item_start ''ATAGACC'') = Inr w' \<and> failed w')"
proof -
  let ?w = "seq_item_start ''ATAGACC''"
  have h1: "trace ?w = Some \<lparr> debug_counter = 0, debug_trace = {}, debug_runtime = Map.empty,
              debug_pre_state = Map.empty, debug_post_state = Map.empty \<rparr>"
    by (simp add: eval_defs)
  have h2: "call_method check_length ?w = Inr (Executed, apply_body check_length ?w)"
    by (simp add: eval_defs)
  have h3: "\<not> failed ?w" by (simp add: eval_defs)
  have h4: "failed (apply_body check_length ?w)" by (simp add: eval_defs)
  from tracer_preserves_failed[OF h1 h2] h4
  have "\<exists>w'. debug_trace_wrapper check_length ?w = Inr w' \<and> failed w'"
    by auto
  then show ?thesis using h1 h2 h3 h4 by blast
qed

section \<open>Requirements with explicit values\<close>

lemma str_contains_iff: "str_contains s t \<longleftrightarrow> (\<exists>p q. s = p @ t @ q)"
proof (induction s)
  case Nil
  then show ?case by auto
next
  case (Cons c s)
  show ?case
  proof
    assume "str_contains (c # s) t"
    then consider "take (length t) (c # s) = t" | "str_contains s t" by auto
    then show "\<exists>p q. c # s = p @ t @ q"
    proof cases
      case 1
      then have "c # s = [] @ t @ drop (length t) (c # s)"
        by (metis append_Nil append_take_drop_id)
      then show ?thesis by blast
    next
      case 2
      then obtain p q where "s = p @ t @ q" using Cons.IH by blast
      then have "c # s = (c # p) @ t @ q" by simp
      then show ?thesis by blast
    qed
  next
    assume "\<exists>p q. c # s = p @ t @ q"
    then obtain p q where pq: "c # s = p @ t @ q" by blast
    show "str_contains (c # s) t"
    proof (cases p)
      case Nil
      then have "take (length t) (c # s) = t" using pq by simp
      then show ?thesis by simp
    next
      case (Cons a p')
      then have "s = p' @ t @ q" using pq by simp
      then show ?thesis using Cons.IH by auto
    qed
  qed
qed

text \<open>A requirement given as a single string keeps the string: the option's value
  passes when it is a string that occurs in the required one, and the test raises
  TypeError when it is not a string.\<close>

lemma string_literal_gate:
  assumes "options w k = Some val"
    and "case st of None \<Rightarrow> True | Some p \<Rightarrow> p (state w)"
  shows "decorated (requires_init (Some k) (ArgValue (PStr s)) st) m w =
           (case val of
              PStr t \<Rightarrow> if str_contains s t then Inr (Executed, apply_body m w)
                        else Inr (Not_executed, w)
            | _ \<Rightarrow> Inl TypeError)"
  using assms by (cases val) (simp_all add: decorated_def requires_init_def split: option.splits)




section \<open>What a run yields\<close>

lemma call_loop_outputs:
  "fst (call_loop fs sc fc w items) = concat (map (yield_item sc fc) (finals fs w items))"
proof (induction items arbitrary: w)
  case Nil
  then show ?case by simp
next
  case (Cons item items)
  show ?case
  proof (cases "process_item fs w item")
    case (Inl e)
    then show ?thesis by simp
  next
    case (Inr w1)
    obtain outs r where p: "call_loop fs sc fc w1 items = (outs, r)"
      by (cases "call_loop fs sc fc w1 items")
    then have "outs = concat (map (yield_item sc fc) (finals fs w1 items))"
      using Cons.IH[of w1] by simp
    then show ?thesis using Inr p by simp
  qed
qed

lemma length_finals: "length (finals fs w items) \<le> length items"
  by (induction items arbitrary: w) (auto split: sum.splits)

lemma finals_complete:
  "snd (call_loop fs sc fc w items) = Inr w' \<Longrightarrow> length (finals fs w items) = length items"
proof (induction items arbitrary: w)
  case Nil
  then show ?case by simp
next
  case (Cons item items)
  show ?case
  proof (cases "process_item fs w item")
    case (Inl e)
    then show ?thesis using Cons.prems by simp
  next
    case (Inr w1)
    obtain outs r where p: "call_loop fs sc fc w1 items = (outs, r)"
      by (cases "call_loop fs sc fc w1 items")
    then have "snd (call_loop fs sc fc w1 items) = Inr w'"
      using Cons.prems Inr by simp
    then have "length (finals fs w1 items) = length items"
      by (rule Cons.IH)
    then show ?thesis using Inr by simp
  qed
qed

lemma outputs_default:
  "concat (map (yield_item sc None) ws) = map sc (filter (\<lambda>x. \<not> failed x) ws)"
  by (induction ws) (auto simp: yield_item_def)

lemma outputs_fail_callback:
  "length (concat (map (yield_item sc (Some f)) ws)) = length ws"
  by (induction ws) (auto simp: yield_item_def)

lemma outputs_le: "length (concat (map (yield_item sc fc) ws)) \<le> length ws"
  by (induction ws) (auto simp: yield_item_def split: option.splits)

lemma filter_failed_less:
  "\<exists>x\<in>set ws. failed x \<Longrightarrow> length (filter (\<lambda>x. \<not> failed x) ws) < length ws"
  by (auto intro: length_filter_less)

text \<open>
  C5. A run without callbacks yields, in order, the state of each processed item whose
  failure flag is off when its methods are done, as it stands then, and nothing for an
  item whose flag is on; so when some item has failed, there are fewer results than
  items.
\<close>

theorem default_callbacks:
  "fst (call w items None None) =
     map state (filter (\<lambda>x. \<not> failed x) (finals (all_wf_methods w) w items))
   \<and> ((\<exists>x\<in>set (finals (all_wf_methods w) w items). failed x) \<longrightarrow>
        length (fst (call w items None None)) < length items)"
proof -
  let ?ws = "finals (all_wf_methods w) w items"
  have a: "fst (call w items None None) = map state (filter (\<lambda>x. \<not> failed x) ?ws)"
    by (simp add: call_def call_loop_outputs outputs_default)
  have "length (filter (\<lambda>x. \<not> failed x) ?ws) < length items" if "\<exists>x\<in>set ?ws. failed x"
    using filter_failed_less[OF that] length_finals[of "all_wf_methods w" w items] by simp
  then show ?thesis using a by simp
qed

text \<open>Witness of C5: the documented run, in which \<^verbatim>\<open>ATAGACC\<close> fails.\<close>

theorem default_callbacks_witness:
  "(\<exists>x\<in>set (finals (all_wf_methods seq_wf) seq_wf seqs). failed x)
   \<and> fst (call seq_wf seqs None None) = [''AAAAAAATTTTTTT'', ''CCGGAC'', ''ATATGAACAAA'']
   \<and> length (fst (call seq_wf seqs None None)) < length seqs"
proof -
  have h: "\<exists>x\<in>set (finals (all_wf_methods seq_wf) seq_wf seqs). failed x"
    by (simp add: eval_defs)
  have "length (fst (call seq_wf seqs None None)) < length seqs"
    using default_callbacks[of seq_wf seqs] h by blast
  moreover have "fst (call seq_wf seqs None None) = [''AAAAAAATTTTTTT'', ''CCGGAC'', ''ATATGAACAAA'']"
    by (simp add: eval_defs)
  ultimately show ?thesis using h by blast
qed

text \<open>
  C6, as the specification states it, fails: without a fail callback the run over the
  one sequence \<^verbatim>\<open>ATAGACC\<close> ends normally and yields nothing.
\<close>

theorem output_cardinality_counterexample:
  "\<not> isl (snd (call seq_wf [''ATAGACC''] None None))
   \<and> fst (call seq_wf [''ATAGACC''] None None) = []
   \<and> length (fst (call seq_wf [''ATAGACC''] None None)) \<noteq> length [''ATAGACC'']"
  by (simp add: eval_defs)

text \<open>
  C6, amended. A run yields at most one result for each item. When a fail callback is
  supplied and the run ends without an exception, it yields exactly one result for each
  item; when none is supplied, it yields one result for each processed item that has not
  failed.
\<close>

theorem output_cardinality:
  "length (fst (call w items sc fc)) \<le> length items
   \<and> (snd (call w items sc (Some f)) = Inr w' \<longrightarrow>
        length (fst (call w items sc (Some f))) = length items)
   \<and> length (fst (call w items sc None)) =
        length (filter (\<lambda>x. \<not> failed x) (finals (all_wf_methods w) w items))"
proof -
  let ?fs = "all_wf_methods w"
  have a: "length (fst (call w items sc fc)) \<le> length items"
    using outputs_le[of _ fc "finals ?fs w items"] length_finals[of ?fs w items]
    by (simp add: call_def call_loop_outputs Let_def) (meson order_trans)
  have b: "length (fst (call w items sc (Some f))) = length items"
    if "snd (call w items sc (Some f)) = Inr w'"
    using that finals_complete[of ?fs _ "Some f" w items w']
    by (simp add: call_def call_loop_outputs outputs_fail_callback Let_def)
  have c: "length (fst (call w items sc None)) =
        length (filter (\<lambda>x. \<not> failed x) (finals ?fs w items))"
    by (simp add: call_def call_loop_outputs outputs_default Let_def)
  from a b c show ?thesis by blast
qed

text \<open>Witness of C6: the documented run with both callbacks yields four results.\<close>

theorem output_cardinality_witness:
  "snd (call seq_wf seqs (Some success_f) (Some fail_f))
     = Inr (projr (snd (call seq_wf seqs (Some success_f) (Some fail_f))))
   \<and> length (fst (call seq_wf seqs (Some success_f) (Some fail_f))) = length seqs
   \<and> length (fst (call seq_wf seqs (Some success_f) None)) \<le> length seqs"
proof -
  have h: "snd (call seq_wf seqs (Some success_f) (Some fail_f))
     = Inr (projr (snd (call seq_wf seqs (Some success_f) (Some fail_f))))"
    by (simp add: eval_defs)
  have a: "length (fst (call seq_wf seqs (Some success_f) (Some fail_f))) = length seqs"
    using output_cardinality[of seq_wf seqs "Some success_f" None fail_f] h by blast
  have b: "length (fst (call seq_wf seqs (Some success_f) None)) \<le> length seqs"
    using output_cardinality[of seq_wf seqs "Some success_f" None fail_f] by blast
  from h a b show ?thesis by blast
qed

section \<open>Keyword arguments of the constructor\<close>

lemma hasattr_extras_update:
  "hasattr (w\<lparr>extras := (extras w)(k \<mapsto> v)\<rparr>) k' \<longleftrightarrow> hasattr w k' \<or> k' = k"
  by (auto simp: hasattr_def)

lemma set_kwargs_collision:
  "\<exists>k\<in>fst ` set kwargs. hasattr w k \<Longrightarrow> set_kwargs kwargs w = Inl AttributeError"
proof (induction kwargs arbitrary: w)
  case Nil
  then show ?case by simp
next
  case (Cons kv kwargs)
  obtain k v where kv: "kv = (k, v)" by (cases kv)
  show ?case
  proof (cases "hasattr w k")
    case True
    then show ?thesis using kv by simp
  next
    case False
    then have "\<exists>k'\<in>fst ` set kwargs. hasattr (w\<lparr>extras := (extras w)(k \<mapsto> v)\<rparr>) k'"
      using Cons.prems kv by (auto simp: hasattr_extras_update)
    then show ?thesis using False kv Cons.IH by simp
  qed
qed

lemma set_kwargs_attached:
  assumes "distinct (map fst kwargs)" "\<forall>k\<in>fst ` set kwargs. \<not> hasattr w k"
  shows "set_kwargs kwargs w = Inr (w\<lparr>extras := extras w ++ map_of kwargs\<rparr>)"
  using assms
proof (induction kwargs arbitrary: w)
  case Nil
  then show ?case by simp
next
  case (Cons kv kwargs)
  obtain k v where kv: "kv = (k, v)" by (cases kv)
  let ?w = "w\<lparr>extras := (extras w)(k \<mapsto> v)\<rparr>"
  have fresh: "k \<notin> fst ` set kwargs" and d: "distinct (map fst kwargs)"
    using Cons.prems(1) kv by auto
  have "\<forall>k'\<in>fst ` set kwargs. \<not> hasattr ?w k'"
    using Cons.prems(2) fresh kv by (auto simp: hasattr_extras_update)
  then have ih: "set_kwargs kwargs ?w = Inr (?w\<lparr>extras := extras ?w ++ map_of kwargs\<rparr>)"
    using Cons.IH[OF d] by blast
  have "map_of kwargs k = None" using fresh by (simp add: map_of_eq_None_iff)
  then have eq: "(extras w)(k \<mapsto> v) ++ map_of kwargs = extras w ++ map_of (kv # kwargs)"
    unfolding kv by (auto simp: map_add_def fun_eq_iff split: option.splits)
  have "set_kwargs (kv # kwargs) w = set_kwargs kwargs ?w"
    using Cons.prems(2) kv by simp
  also have "\<dots> = Inr (?w\<lparr>extras := extras ?w ++ map_of kwargs\<rparr>)"
    by (rule ih)
  also have "?w\<lparr>extras := extras ?w ++ map_of kwargs\<rparr>
      = w\<lparr>extras := (extras w)(k \<mapsto> v) ++ map_of kwargs\<rparr>"
    by simp
  finally show ?case by (simp only: eq)
qed

lemma name_class_namespace: "name ` set (class_namespace ms) = name ` set ms"
  by (induction ms) auto

lemma hasattr_init_attributes:
  "hasattr (init_attributes cls st sc dbg opts clk) k \<longleftrightarrow>
     k \<in> set init_attrs \<union> name ` set (cls_methods cls) \<union> set dir_Workflow"
proof -
  have "func_name ` set (map Plain (class_namespace (cls_methods cls))) = name ` set (cls_methods cls)"
    using name_class_namespace[of "cls_methods cls"] by (simp add: image_image func_name_def)
  then show ?thesis by (auto simp: hasattr_def init_attributes_def)
qed

text \<open>
  C10. The keyword arguments of a construction have distinct names. When one of the
  names is that of an attribute the instance already has (one of the five that
  \<^verbatim>\<open>__init__\<close> assigns, a member of the subclass, or a name of \<^verbatim>\<open>dir(Workflow)\<close>),
  the construction raises AttributeError and returns no instance, so the error comes
  before any run. When none is, the construction returns an instance whose extra
  attributes are exactly the keyword arguments with their values.
\<close>

theorem kwargs_collision:
  assumes "distinct (map fst kwargs)"
  shows "((\<exists>k\<in>fst ` set kwargs. k \<in> set init_attrs \<union> name ` set (cls_methods cls) \<union> set dir_Workflow)
            \<longrightarrow> workflow_init cls st sc dbg opts kwargs clk = Inl AttributeError)
     \<and> (\<not> (\<exists>k\<in>fst ` set kwargs. k \<in> set init_attrs \<union> name ` set (cls_methods cls) \<union> set dir_Workflow)
            \<longrightarrow> (\<exists>w. workflow_init cls st sc dbg opts kwargs clk = Inr w
                    \<and> extras w = map_of kwargs))"
proof -
  let ?w0 = "init_attributes cls st sc dbg opts clk"
  have a: "workflow_init cls st sc dbg opts kwargs clk = Inl AttributeError"
    if "\<exists>k\<in>fst ` set kwargs. k \<in> set init_attrs \<union> name ` set (cls_methods cls) \<union> set dir_Workflow"
  proof -
    have "\<exists>k\<in>fst ` set kwargs. hasattr ?w0 k"
      using that by (simp only: hasattr_init_attributes)
    then show ?thesis by (simp add: workflow_init_def set_kwargs_collision)
  qed
  have b: "\<exists>w. workflow_init cls st sc dbg opts kwargs clk = Inr w \<and> extras w = map_of kwargs"
    if "\<not> (\<exists>k\<in>fst ` set kwargs. k \<in> set init_attrs \<union> name ` set (cls_methods cls) \<union> set dir_Workflow)"
  proof -
    have "\<forall>k\<in>fst ` set kwargs. \<not> hasattr ?w0 k"
      using that by (simp only: hasattr_init_attributes) blast
    then have "set_kwargs kwargs ?w0 = Inr (?w0\<lparr>extras := extras ?w0 ++ map_of kwargs\<rparr>)"
      using set_kwargs_attached[OF assms] by blast
    moreover have "extras ?w0 = Map.empty" by (simp add: init_attributes_def)
    ultimately show ?thesis by (simp add: workflow_init_def setup_debug_def)
  qed
  from a b show ?thesis by blast
qed

text \<open>Witness of C10: \<^verbatim>\<open>failed\<close> collides with the attribute of that name, and
  \<^verbatim>\<open>barcode\<close> alone is attached.\<close>

theorem kwargs_collision_witness:
  "distinct (map fst [(''barcode'', PStr ''ACGT''), (''failed'', PBool True)])
   \<and> workflow_init SequenceProcessor [] True False None
        [(''barcode'', PStr ''ACGT''), (''failed'', PBool True)] int = Inl AttributeError
   \<and> distinct (map fst [(''barcode'', PStr ''ACGT'')])
   \<and> (\<exists>w. workflow_init SequenceProcessor [] True False None [(''barcode'', PStr ''ACGT'')] int = Inr w
         \<and> extras w = map_of [(''barcode'', PStr ''ACGT'')])"
proof -
  have d1: "distinct (map fst [(''barcode'', PStr ''ACGT''), (''failed'', PBool True)])"
    by simp
  have d2: "distinct (map fst [(''barcode'', PStr ''ACGT'')])"
    by simp
  have a: "workflow_init SequenceProcessor [] True False None
        [(''barcode'', PStr ''ACGT''), (''failed'', PBool True)] int = Inl AttributeError"
    using kwargs_collision[OF d1, of SequenceProcessor "[]" True False None int]
    by (simp add: init_attrs_def)
  have b: "\<exists>w. workflow_init SequenceProcessor [] True False None [(''barcode'', PStr ''ACGT'')] int = Inr w
         \<and> extras w = map_of [(''barcode'', PStr ''ACGT'')]"
    using kwargs_collision[OF d2, of SequenceProcessor "[]" True False None int]
    by (simp add: init_attrs_def dir_Workflow_def workflow_attrs_def object_attrs_def example_defs)
  from d1 d2 a b show ?thesis by blast
qed

end
